theory Spec2Isabelle
  imports Complex_Main
begin

section \<open>Errors and tensors\<close>

text \<open>
  Python exceptions are values. Every function of the sources that can raise returns
  \<open>error + 'a\<close>, with \<open>Inl\<close> carrying the exception.
\<close>

datatype error =
    ValueError string
  | TypeError
  | AssertionError string
  | AttributeError
  | IndexError
  | KeyError
  | RuntimeError
  | ZeroDivisionError

text \<open>
  The sanity checks look at gradients and parameters entry by entry and distinguish
  NaN and the two infinities from ordinary numbers, so an entry of such a tensor is one of
  four cases. A tensor is the list of its entries (the checks never look at the shape
  beyond the number of entries).
\<close>

datatype fp = Finite real | PosInf | NegInf | NaN

type_synonym tensor = "fp list"

fun isnan :: "fp \<Rightarrow> bool" where
  "isnan NaN = True"
| "isnan _ = False"

fun isinf :: "fp \<Rightarrow> bool" where
  "isinf PosInf = True"
| "isinf NegInf = True"
| "isinf _ = False"

definition any :: "bool list \<Rightarrow> bool" where
  "any bs = (True \<in> set bs)"

text \<open>
  \<open>torch.isnan\<close> and \<open>torch.isinf\<close> accept a tensor only: applied to Python's \<open>None\<close>
  they raise \<open>TypeError\<close>.
\<close>

fun torch_isnan :: "tensor option \<Rightarrow> error + bool list" where
  "torch_isnan None = Inl TypeError"
| "torch_isnan (Some t) = Inr (map isnan t)"

fun torch_isinf :: "tensor option \<Rightarrow> error + bool list" where
  "torch_isinf None = Inl TypeError"
| "torch_isinf (Some t) = Inr (map isinf t)"


section \<open>sanity\_checks.py: the check after the backward pass\<close>

record param =
  requires_grad :: bool
  is_tied :: bool
  tied_full_name :: string
  grad :: "tensor option"

text \<open>
  \<open>tied_full_name\<close> is what
  \<open>param.get_tied_info().get_full_name_from_module_id_to_prefix(...)\<close> returns; it is
  read for tied parameters only. \<open>grad\<close> is \<open>param.grad\<close>, \<open>None\<close> when the parameter
  has no gradient. A gradient accumulator is the function \<open>get_grad_buffer\<close> from names
  to buffers.
\<close>

type_synonym grad_accumulator = "string \<Rightarrow> tensor option"

datatype level = DEBUG | INFO | WARNING | ERROR

type_synonym log = "(level \<times> string) list"

record parallel_context =
  world_rank :: nat
  world_size :: nat

record nanotron_model =
  named_parameters :: "(string \<times> param) list"
  model_after_tbi_sanity_checks :: "error option"

text \<open>Python's \<open>str\<close> of a non-negative integer, as the f-string of the log message prints it.\<close>

fun str_nat :: "nat \<Rightarrow> string" where
  "str_nat n =
     (if n < 10 then [char_of (48 + n)]
      else str_nat (n div 10) @ [char_of (48 + n mod 10)])"

definition missing_gradient_message :: "parallel_context \<Rightarrow> string \<Rightarrow> string" where
  "missing_gradient_message pc name =
     ''Process rank '' @ str_nat (world_rank pc) @ ''/'' @ str_nat (world_size pc)
       @ '': '' @ name @ '' is missing gradient''"

text \<open>
  The loop over \<open>unwrapped_model.named_parameters()\<close> of \<open>after_tbi_sanity_checks\<close>. The
  log is threaded through; an exception ends the loop at once. The order of the tests
  is the order of the source: \<open>torch.isnan(grad).any() or torch.isinf(grad).any()\<close>
  comes before \<open>grad is None\<close>.
\<close>

fun check_grads ::
  "parallel_context \<Rightarrow> grad_accumulator option \<Rightarrow> (string \<times> param) list \<Rightarrow> log \<Rightarrow> error + log"
where
  "check_grads pc ga [] lg = Inr lg"
| "check_grads pc ga ((name0, p) # rest) lg =
     (if \<not> requires_grad p then check_grads pc ga rest lg
      else
        let name = (if is_tied p then tied_full_name p else name0);
            g = (case ga of Some acc \<Rightarrow> acc name | None \<Rightarrow> grad p)
        in case torch_isnan g of
             Inl e \<Rightarrow> Inl e
           | Inr nans \<Rightarrow>
               (case (if any nans then Inr True
                      else (case torch_isinf g of Inl e \<Rightarrow> Inl e | Inr infs \<Rightarrow> Inr (any infs))) of
                  Inl e \<Rightarrow> Inl e
                | Inr True \<Rightarrow> Inl (ValueError (''Gradient is nan or inf for '' @ name))
                | Inr False \<Rightarrow>
                    (if g = None
                     then check_grads pc ga rest (lg @ [(ERROR, missing_gradient_message pc name)])
                     else check_grads pc ga rest lg)))"

definition after_tbi_sanity_checks ::
  "bool \<Rightarrow> parallel_context \<Rightarrow> nanotron_model \<Rightarrow> grad_accumulator option \<Rightarrow> log \<Rightarrow> error + log"
where
  "after_tbi_sanity_checks ignore_sanity_checks pc unwrapped_model ga lg =
     (if \<not> ignore_sanity_checks then
        (case check_grads pc ga (named_parameters unwrapped_model) lg of
           Inl e \<Rightarrow> Inl e
         | Inr lg' \<Rightarrow>
             (case model_after_tbi_sanity_checks unwrapped_model of
                Some e \<Rightarrow> Inl e
              | None \<Rightarrow> Inr lg'))
      else Inr lg)"

text \<open>The name under which a parameter's gradient is looked up and reported.\<close>

definition reported_name :: "string \<times> param \<Rightarrow> string" where
  "reported_name np = (if is_tied (snd np) then tied_full_name (snd np) else fst np)"

definition grad_of :: "grad_accumulator option \<Rightarrow> string \<times> param \<Rightarrow> tensor option" where
  "grad_of ga np = (case ga of Some acc \<Rightarrow> acc (reported_name np) | None \<Rightarrow> grad (snd np))"

definition nonfinite :: "tensor \<Rightarrow> bool" where
  "nonfinite t = (\<exists>x \<in> set t. isnan x \<or> isinf x)"

text \<open>A parameter the loop steps over without raising.\<close>

definition passes :: "grad_accumulator option \<Rightarrow> string \<times> param \<Rightarrow> bool" where
  "passes ga np =
     (\<not> requires_grad (snd np) \<or> (\<exists>t. grad_of ga np = Some t \<and> \<not> nonfinite t))"


section \<open>sanity\_checks.py: the synchronisation check\<close>

text \<open>
  \<open>torch.isclose\<close> as \<open>torch.testing.assert_close\<close> uses it. The call in
  \<open>assert_tensor_synced_across_pg\<close> passes no \<open>equal_nan\<close>, whose default is
  \<open>False\<close>: NaN is close to nothing, itself included. Two equal infinities are close;
  two numbers are close when \<open>\<bar>actual - expected\<bar> \<le> atol + rtol * \<bar>expected\<bar>\<close>. The
  tolerances are the defaults of the tensor's dtype and are parameters here.
\<close>

fun isclose :: "real \<Rightarrow> real \<Rightarrow> fp \<Rightarrow> fp \<Rightarrow> bool" where
  "isclose rtol atol (Finite a) (Finite e) = (\<bar>a - e\<bar> \<le> atol + rtol * \<bar>e\<bar>)"
| "isclose rtol atol PosInf PosInf = True"
| "isclose rtol atol NegInf NegInf = True"
| "isclose rtol atol _ _ = False"

definition assert_close ::
  "real \<Rightarrow> real \<Rightarrow> (string \<Rightarrow> string) option \<Rightarrow> tensor \<Rightarrow> tensor \<Rightarrow> error + unit"
where
  "assert_close rtol atol msg actual expected =
     (let fail = (\<lambda>err. Inl (AssertionError (case msg of None \<Rightarrow> err | Some f \<Rightarrow> f err)))
      in if length actual \<noteq> length expected then fail ''The values for attribute shape do not match''
         else if list_all2 (isclose rtol atol) actual expected then Inr ()
         else fail ''Tensor-likes are not close!'')"

text \<open>
  A process group is the list of the tensors its ranks call the check with, in rank
  order. \<open>dist.broadcast\<close> leaves the buffer of the source rank as it is and overwrites
  the buffer of every other rank with the source's tensor. \<open>torch.empty_like\<close> gives a
  buffer of the same shape whose contents do not matter: the broadcast overwrites them.
\<close>

type_synonym process_group = "tensor list"

definition empty_like :: "tensor \<Rightarrow> tensor" where
  "empty_like t = replicate (length t) (Finite 0)"

definition broadcast :: "process_group \<Rightarrow> nat \<Rightarrow> nat \<Rightarrow> tensor \<Rightarrow> tensor" where
  "broadcast pg rank src buffer = (if rank = src then buffer else pg ! src)"

definition assert_tensor_synced_across_pg ::
  "real \<Rightarrow> real \<Rightarrow> process_group \<Rightarrow> nat \<Rightarrow> (string \<Rightarrow> string) option \<Rightarrow> nat \<Rightarrow> error + unit"
where
  "assert_tensor_synced_across_pg rtol atol pg rank msg reference_rank =
     (if length pg \<le> rank \<or> length pg \<le> reference_rank then Inl RuntimeError
      else
        let tensor = pg ! rank;
            reference_tensor = (if rank = reference_rank then tensor else empty_like tensor);
            reference_tensor = broadcast pg rank reference_rank reference_tensor
        in assert_close rtol atol msg tensor reference_tensor)"


section \<open>qwen.py: position ids and the packed causal mask\<close>

text \<open>
  Position ids enter the first decoder layer as a \<open>[batch_size, seq_length]\<close> tensor
  and leave every attention module flattened, so a tensor of position ids has one or two
  dimensions.
\<close>

datatype position_ids = Pos1 "int list" | Pos2 "int list list"

fun masked_fill_padding :: "position_ids \<Rightarrow> position_ids" where
  "masked_fill_padding (Pos1 ps) = Pos1 (map (\<lambda>p. if p = - 1 then 0 else p) ps)"
| "masked_fill_padding (Pos2 pss) = Pos2 (map (map (\<lambda>p. if p = - 1 then 0 else p)) pss)"

fun view_flat :: "position_ids \<Rightarrow> int list" where
  "view_flat (Pos1 ps) = ps"
| "view_flat (Pos2 pss) = concat pss"

type_synonym mask = "bool list list"

definition start_indices :: "int list \<Rightarrow> nat list" where
  "start_indices position_ids = filter (\<lambda>i. position_ids ! i = 0) [0..<length position_ids]"

text \<open>
  One pass of the loop of \<open>get_attention_mask\<close>:
  \<open>attention_mask[a:b, a:b] = torch.tril(torch.ones(b - a, b - a))\<close> on a mask of
  \<open>n\<close> rows and columns. \<open>torch.ones\<close> raises on a negative size. The slice is clipped
  to the mask; the assignment needs the block to have the size of the clipped slice, or to
  be a single entry, which is broadcast (here only into an empty slice).
\<close>

definition set_tril :: "nat \<Rightarrow> nat \<Rightarrow> nat \<Rightarrow> mask \<Rightarrow> error + mask" where
  "set_tril n a b m =
     (if b < a then Inl RuntimeError
      else if min b n - min a n = b - a then
        Inr (map (\<lambda>i. map (\<lambda>j. if a \<le> i \<and> i < b \<and> a \<le> j \<and> j < b then j \<le> i else m ! i ! j)
                         [0..<n]) [0..<n])
      else if b - a = 1 then Inr m
      else Inl RuntimeError)"

fun make_trius :: "nat \<Rightarrow> (nat \<times> nat) list \<Rightarrow> mask \<Rightarrow> error + mask" where
  "make_trius n [] m = Inr m"
| "make_trius n ((a, b) # ps) m =
     (case set_tril n a b m of Inl e \<Rightarrow> Inl e | Inr m' \<Rightarrow> make_trius n ps m')"

definition get_attention_mask :: "int list \<Rightarrow> nat \<Rightarrow> error + mask \<times> nat list" where
  "get_attention_mask position_ids seq_length =
     (let attention_mask = replicate seq_length (replicate seq_length False);
          cu_seqlens = start_indices position_ids @ [seq_length]
      in case make_trius seq_length (zip cu_seqlens (tl cu_seqlens)) attention_mask of
           Inl e \<Rightarrow> Inl e
         | Inr attention_mask \<Rightarrow> Inr (attention_mask, cu_seqlens))"

text \<open>A model with a tied parameter whose gradient holds a NaN.\<close>

definition example_model :: nanotron_model where
  "example_model =
     \<lparr>named_parameters =
        [(''embed.weight'', \<lparr>requires_grad = True, is_tied = False, tied_full_name = [],
                             grad = Some [Finite 1, Finite 0]\<rparr>),
         (''frozen.weight'', \<lparr>requires_grad = False, is_tied = False, tied_full_name = [],
                              grad = None\<rparr>),
         (''lm_head.weight'', \<lparr>requires_grad = True, is_tied = True,
                               tied_full_name = ''embed.tied'',
                               grad = Some [Finite 2, NaN]\<rparr>)],
      model_after_tbi_sanity_checks = None\<rparr>"


text \<open>A model with two parameters whose gradients both hold a non-finite value.\<close>

definition two_nonfinite_model :: nanotron_model where
  "two_nonfinite_model =
     \<lparr>named_parameters =
        [(''a.weight'', \<lparr>requires_grad = True, is_tied = False, tied_full_name = [],
                         grad = Some [PosInf]\<rparr>),
         (''b.weight'', \<lparr>requires_grad = True, is_tied = False, tied_full_name = [],
                         grad = Some [NaN]\<rparr>)],
      model_after_tbi_sanity_checks = None\<rparr>"

text \<open>A mask of \<open>n\<close> rows and \<open>n\<close> columns.\<close>

definition square :: "nat \<Rightarrow> mask \<Rightarrow> bool" where
  "square n m \<longleftrightarrow> length m = n \<and> (\<forall>r \<in> set m. length r = n)"


text \<open>
  The mask as the specification words it, without the requirement that a document start
  lies at or before the column: \<open>j \<le> i\<close> and no position zero in \<open>(j, i]\<close>.
\<close>

definition block_diagonal_claim :: "int list \<Rightarrow> nat \<Rightarrow> nat \<Rightarrow> bool" where
  "block_diagonal_claim position_ids i j =
     (j \<le> i \<and> list_all (\<lambda>t. position_ids ! t \<noteq> 0) [Suc j..<Suc i])"


section \<open>qwen.py: activations as lists of rows\<close>

text \<open>
  A tensor of activations \<open>[tokens, width]\<close> is the list of its rows. Entries are real
  numbers: the rounding of floating-point arithmetic is not part of this model. A tensor
  without rows is the empty list, whatever its width.

  The linear layers (\<open>TensorParallelColumnLinear\<close>, \<open>TensorParallelRowLinear\<close>), the
  normalisation and the rotary embedding belong to modules outside these sources. Each
  acts on every row on its own and is taken as a function on rows.
\<close>

type_synonym row = "real list"

type_synonym hidden = "row list"

fun map_err :: "('a \<Rightarrow> error + 'b) \<Rightarrow> 'a list \<Rightarrow> error + 'b list" where
  "map_err f [] = Inr []"
| "map_err f (x # xs) =
     (case f x of
        Inl e \<Rightarrow> Inl e
      | Inr y \<Rightarrow> (case map_err f xs of Inl e \<Rightarrow> Inl e | Inr ys \<Rightarrow> Inr (y # ys)))"

text \<open>
  An elementwise operation on two tensors with torch's broadcasting: along each of the two
  dimensions the sizes are equal or one of them is 1, otherwise the operation raises.
\<close>

definition bcast_row :: "(real \<Rightarrow> real \<Rightarrow> real) \<Rightarrow> row \<Rightarrow> row \<Rightarrow> error + row" where
  "bcast_row f a b =
     (if length a = length b then Inr (map (\<lambda>(x, y). f x y) (zip a b))
      else if length a = 1 then Inr (map (f (hd a)) b)
      else if length b = 1 then Inr (map (\<lambda>x. f x (hd b)) a)
      else Inl RuntimeError)"

definition bcast2 :: "(real \<Rightarrow> real \<Rightarrow> real) \<Rightarrow> hidden \<Rightarrow> hidden \<Rightarrow> error + hidden" where
  "bcast2 f A B =
     (if length A = length B then map_err (\<lambda>(a, b). bcast_row f a b) (zip A B)
      else if length A = 1 then map_err (bcast_row f (hd A)) B
      else if length B = 1 then map_err (\<lambda>a. bcast_row f a (hd B)) A
      else Inl RuntimeError)"

definition shape :: "hidden \<Rightarrow> nat \<times> nat" where
  "shape hs = (length hs, case hs of [] \<Rightarrow> 0 | r # _ \<Rightarrow> length r)"


section \<open>qwen.py: CoreAttention and Qwen2Attention\<close>

text \<open>
  The fields of the configuration that \<open>CoreAttention.forward\<close> reads. A field that the
  configuration lacks has the default of its \<open>getattr\<close>: \<open>False\<close>, \<open>None\<close> and \<open>0\<close>.
\<close>

record Qwen2Config =
  use_sliding_window :: bool
  sliding_window :: "nat option"
  max_window_layers :: nat
  attn_implementation :: string

record CoreAttention =
  config :: Qwen2Config
  layer_idx :: nat
  head_dim :: nat

text \<open>
  The keyword arguments an attention function can be called with; one that the call does
  not pass is \<open>None\<close>.
\<close>

record attention_kwargs =
  kw_attention_mask :: "mask option"
  kw_dropout :: real
  kw_scaling :: real
  kw_sliding_window :: "nat option"
  kw_cu_seqlens :: "nat list option"

type_synonym attention_function =
  "CoreAttention \<Rightarrow> hidden \<Rightarrow> hidden \<Rightarrow> hidden \<Rightarrow> attention_kwargs \<Rightarrow> error + hidden"

text \<open>The condition of the \<open>if\<close> at the head of \<open>CoreAttention.forward\<close>.\<close>

definition sliding_window_condition :: "CoreAttention \<Rightarrow> bool" where
  "sliding_window_condition self =
     (use_sliding_window (config self) \<and> sliding_window (config self) \<noteq> None
      \<and> max_window_layers (config self) \<le> layer_idx self)"

text \<open>
  The keyword arguments of the call \<open>attention_func(self, q, k, v, attention_mask=None,
  dropout=dropout, scaling=self.head_dim**-0.5, **kwargs)\<close>. The lines that would pass
  \<open>sliding_window\<close> and \<open>cu_seqlens\<close> are comments in the source. \<open>0 ** -0.5\<close> raises
  \<open>ZeroDivisionError\<close>.
\<close>

definition attention_call_kwargs :: "CoreAttention \<Rightarrow> real \<Rightarrow> error + attention_kwargs" where
  "attention_call_kwargs self dropout =
     (if head_dim self = 0 then Inl ZeroDivisionError
      else Inr \<lparr>kw_attention_mask = None, kw_dropout = dropout,
                 kw_scaling = 1 / sqrt (real (head_dim self)),
                 kw_sliding_window = None, kw_cu_seqlens = None\<rparr>)"

text \<open>
  \<open>CoreAttention.forward\<close>. The registry \<open>ALL_ATTENTION_FUNCTIONS\<close> is a parameter; a key
  it lacks raises \<open>KeyError\<close>. The body of the \<open>if\<close> is the expression statement
  \<open>getattr(self.config, "sliding_window", None)\<close>, whose value is dropped. The \<open>view\<close>
  and \<open>transpose\<close> calls rearrange the entries of the three tensors and raise when the
  sizes do not fit; they are the parameter \<open>layout\<close>. \<open>attention_mask.shape\<close> raises on
  \<open>None\<close>.
\<close>

definition CoreAttention_forward ::
  "(string \<Rightarrow> attention_function option) \<Rightarrow> (hidden \<Rightarrow> error + hidden) \<Rightarrow> CoreAttention
   \<Rightarrow> hidden \<Rightarrow> hidden \<Rightarrow> hidden \<Rightarrow> mask option \<Rightarrow> nat list option \<Rightarrow> real \<Rightarrow> nat option
   \<Rightarrow> error + hidden"
where
  "CoreAttention_forward ALL_ATTENTION_FUNCTIONS layout self query_states key_states value_states
       attention_mask cu_seqlens dropout sliding_window_arg =
     (case ALL_ATTENTION_FUNCTIONS (attn_implementation (config self)) of
        None \<Rightarrow> Inl KeyError
      | Some attention_func \<Rightarrow>
          (let dropped = (if sliding_window_condition self then sliding_window (config self)
                          else None)
           in case attention_mask of
                None \<Rightarrow> Inl AttributeError
              | Some m \<Rightarrow>
                  (case layout query_states of Inl e \<Rightarrow> Inl e | Inr q \<Rightarrow>
                   case layout key_states of Inl e \<Rightarrow> Inl e | Inr k \<Rightarrow>
                   case layout value_states of Inl e \<Rightarrow> Inl e | Inr v \<Rightarrow>
                   case attention_call_kwargs self dropout of Inl e \<Rightarrow> Inl e | Inr kw \<Rightarrow>
                   attention_func self q k v kw)))"

text \<open>
  \<open>qkv_rotary\<close> stands for lines 204 to 216 of \<open>Qwen2Attention.forward\<close>: the projection
  \<open>qkv_proj\<close>, the split into \<open>q\<close>, \<open>k\<close>, \<open>v\<close> and the rotary embedding, which reads the
  flattened position ids.
\<close>

record Qwen2Attention =
  qkv_rotary :: "hidden \<Rightarrow> int list \<Rightarrow> error + hidden \<times> hidden \<times> hidden"
  attention :: CoreAttention
  o_proj :: "row \<Rightarrow> row"

definition Qwen2Attention_forward ::
  "(string \<Rightarrow> attention_function option) \<Rightarrow> (hidden \<Rightarrow> error + hidden) \<Rightarrow> Qwen2Attention
   \<Rightarrow> hidden \<Rightarrow> position_ids \<Rightarrow> error + hidden \<times> int list"
where
  "Qwen2Attention_forward ALL_ATTENTION_FUNCTIONS layout self hidden_states position_ids0 =
     (let position_ids = view_flat (masked_fill_padding position_ids0)
      in case qkv_rotary self hidden_states position_ids of
           Inl e \<Rightarrow> Inl e
         | Inr (q, k, v) \<Rightarrow>
             (case get_attention_mask position_ids (length q) of
                Inl e \<Rightarrow> Inl e
              | Inr (attention_mask, cu_seqlens) \<Rightarrow>
                  (case CoreAttention_forward ALL_ATTENTION_FUNCTIONS layout (attention self)
                          q k v (Some attention_mask) (Some cu_seqlens) 0 None of
                     Inl e \<Rightarrow> Inl e
                   | Inr attn_output \<Rightarrow> Inr (map (o_proj self) attn_output, position_ids))))"


section \<open>qwen.py: Qwen2MLP\<close>

record Qwen2MLP =
  gate_up_proj :: "row \<Rightarrow> row"
  down_proj :: "row \<Rightarrow> row"
  act :: "real \<Rightarrow> real"

text \<open>
  \<open>gate_states, up_states = torch.split(merged_states, merged_states.shape[-1] // 2,
  dim=-1)\<close>: the split yields exactly two parts, the halves, when the width is even and
  not zero; otherwise the unpacking raises.
\<close>

definition split_halves :: "row \<Rightarrow> error + row \<times> row" where
  "split_halves merged_states =
     (let n = length merged_states
      in if 2 \<le> n \<and> even n then Inr (take (n div 2) merged_states, drop (n div 2) merged_states)
         else Inl (ValueError ''unpack''))"

definition Qwen2MLP_apply :: "Qwen2MLP \<Rightarrow> row \<Rightarrow> row \<Rightarrow> row" where
  "Qwen2MLP_apply self gate_states up_states =
     down_proj self (map (\<lambda>(g, u). act self g * u) (zip gate_states up_states))"

definition Qwen2MLP_row :: "Qwen2MLP \<Rightarrow> row \<Rightarrow> error + row" where
  "Qwen2MLP_row self x =
     (case split_halves (gate_up_proj self x) of
        Inl e \<Rightarrow> Inl e
      | Inr (gate_states, up_states) \<Rightarrow> Inr (Qwen2MLP_apply self gate_states up_states))"

definition Qwen2MLP_forward :: "Qwen2MLP \<Rightarrow> hidden \<Rightarrow> error + hidden" where
  "Qwen2MLP_forward self hidden_states = map_err (Qwen2MLP_row self) hidden_states"

definition sigmoid :: "real \<Rightarrow> real" where
  "sigmoid x = 1 / (1 + exp (- x))"

definition silu :: "real \<Rightarrow> real" where
  "silu x = x * sigmoid x"


section \<open>qwen.py: Qwen2MoELayer\<close>

text \<open>
  \<open>experts\<close> is the \<open>ModuleList\<close>, built in \<open>__init__\<close> with \<open>num_local_experts =
  num_experts // expert_parallel_size\<close> entries. The shared expert and its gate are read
  only when \<open>enable_shared_expert\<close> is set; the gate has one output feature.
\<close>

record Qwen2MoELayer =
  num_experts :: nat
  num_experts_per_token :: nat
  num_local_experts :: nat
  router :: "row \<Rightarrow> row"
  enable_shared_expert :: bool
  shared_expert :: Qwen2MLP
  shared_expert_gate :: "row \<Rightarrow> real"
  experts :: "Qwen2MLP list"
  moe_recompute_layer :: bool
  training :: bool

definition Qwen2MoELayer_init ::
  "nat \<Rightarrow> nat \<Rightarrow> nat \<Rightarrow> (row \<Rightarrow> row) \<Rightarrow> bool \<Rightarrow> Qwen2MLP \<Rightarrow> (row \<Rightarrow> real) \<Rightarrow> (nat \<Rightarrow> Qwen2MLP)
   \<Rightarrow> bool \<Rightarrow> error + Qwen2MoELayer"
where
  "Qwen2MoELayer_init n_experts top_k expert_parallel_size router_layer shared_on shared gate
       new_expert recompute =
     (if expert_parallel_size = 0 then Inl ZeroDivisionError
      else Inr \<lparr>num_experts = n_experts, num_experts_per_token = top_k,
                 num_local_experts = n_experts div expert_parallel_size,
                 router = router_layer, enable_shared_expert = shared_on,
                 shared_expert = shared, shared_expert_gate = gate,
                 experts = map new_expert [0..<n_experts div expert_parallel_size],
                 moe_recompute_layer = recompute, training = True\<rparr>)"

text \<open>
  \<open>torch.topk\<close> along the last dimension: the \<open>k\<close> largest entries in decreasing order,
  with their indices; it raises when \<open>k\<close> exceeds the width. Among equal entries the one
  with the lower index comes first here; torch leaves that order open, and no property
  below depends on it.
\<close>

definition topk :: "nat \<Rightarrow> row \<Rightarrow> error + row \<times> nat list" where
  "topk k xs =
     (if length xs < k then Inl RuntimeError
      else let sel = take k (sort_key (\<lambda>(v, i). - v) (zip xs [0..<length xs]))
           in Inr (map fst sel, map snd sel))"

definition softmax :: "row \<Rightarrow> row" where
  "softmax xs = map (\<lambda>x. exp x / sum_list (map exp xs)) xs"

definition compute_router_probabilities ::
  "Qwen2MoELayer \<Rightarrow> hidden \<Rightarrow> error + row list \<times> nat list list"
where
  "compute_router_probabilities self hidden_states =
     (let router_logits = map (router self) hidden_states
      in case map_err (topk (num_experts_per_token self)) router_logits of
           Inl e \<Rightarrow> Inl e
         | Inr chosen \<Rightarrow> Inr (map (\<lambda>(routing_weights, routing_indices). softmax routing_weights) chosen,
                            map snd chosen))"

text \<open>\<open>(routing_indices == expert_idx).any(dim=-1)\<close>\<close>

definition expert_mask :: "nat list list \<Rightarrow> nat \<Rightarrow> bool list" where
  "expert_mask routing_indices expert_idx = map (\<lambda>r. expert_idx \<in> set r) routing_indices"

text \<open>Indexing the rows of a tensor with a boolean mask, which must have one entry per row.\<close>

definition bool_index :: "bool list \<Rightarrow> 'a list \<Rightarrow> error + 'a list" where
  "bool_index msk xs =
     (if length msk \<noteq> length xs then Inl IndexError
      else Inr (map fst (filter snd (zip xs msk))))"

text \<open>
  \<open>routing_weights[token_positions, k_positions]\<close> for the positions at which
  \<open>routing_indices == expert_idx\<close>: the weights at the matching slots, token by token and
  slot by slot. Both tensors come from the same \<open>topk\<close> and have the same shape.
\<close>

definition selected_weights :: "row \<Rightarrow> nat list \<Rightarrow> nat \<Rightarrow> row" where
  "selected_weights ws idx expert_idx = map snd (filter (\<lambda>(i, w). i = expert_idx) (zip idx ws))"

definition expert_weights :: "row list \<Rightarrow> nat list list \<Rightarrow> nat \<Rightarrow> row" where
  "expert_weights routing_weights routing_indices expert_idx =
     concat (map (\<lambda>(ws, idx). selected_weights ws idx expert_idx)
                 (zip routing_weights routing_indices))"

text \<open>One pass of the loop of \<open>_dispatch_tokens\<close>: the scaled inputs of an expert and their count.\<close>

definition dispatch_expert ::
  "hidden \<Rightarrow> row list \<Rightarrow> nat list list \<Rightarrow> nat \<Rightarrow> error + hidden \<times> nat"
where
  "dispatch_expert hidden_states routing_weights routing_indices expert_idx =
     (case bool_index (expert_mask routing_indices expert_idx) hidden_states of
        Inl e \<Rightarrow> Inl e
      | Inr tokens_for_expert \<Rightarrow>
          (let expert_ws = map (\<lambda>w. [w]) (expert_weights routing_weights routing_indices expert_idx)
           in case bcast2 (*) tokens_for_expert expert_ws of
                Inl e \<Rightarrow> Inl e
              | Inr scaled_inputs \<Rightarrow> Inr (scaled_inputs, length tokens_for_expert)))"

definition dispatch_tokens ::
  "Qwen2MoELayer \<Rightarrow> hidden \<Rightarrow> row list \<Rightarrow> nat list list \<Rightarrow> error + (hidden \<times> nat) list"
where
  "dispatch_tokens self hidden_states routing_weights routing_indices =
     map_err (dispatch_expert hidden_states routing_weights routing_indices)
             [0..<num_local_experts self]"

text \<open>
  The loop of \<open>_core_forward\<close> over \<open>zip(dispatched_inputs, expert_counts)\<close>: an expert
  with count zero is not called and contributes the empty tensor.
\<close>

fun run_experts :: "Qwen2MLP list \<Rightarrow> nat \<Rightarrow> (hidden \<times> nat) list \<Rightarrow> error + hidden list" where
  "run_experts es expert_idx [] = Inr []"
| "run_experts es expert_idx ((inputs, count) # rest) =
     (if count = 0 then
        (case run_experts es (Suc expert_idx) rest of
           Inl e \<Rightarrow> Inl e
         | Inr outs \<Rightarrow> Inr ([] # outs))
      else if length es \<le> expert_idx then Inl IndexError
      else
        (case Qwen2MLP_forward (es ! expert_idx) inputs of
           Inl e \<Rightarrow> Inl e
         | Inr output \<Rightarrow>
             (case run_experts es (Suc expert_idx) rest of
                Inl e \<Rightarrow> Inl e
              | Inr outs \<Rightarrow> Inr (output # outs))))"

text \<open>
  \<open>combined_output[expert_mask] += expert_output\<close>: the masked rows are read, the
  expert's output is added in place (it must broadcast to the shape of the masked rows),
  and the sums are written back to the masked rows.
\<close>

fun scatter :: "bool list \<Rightarrow> 'a list \<Rightarrow> 'a list \<Rightarrow> 'a list" where
  "scatter (True # ms) (c # cs) (s # ss) = s # scatter ms cs ss"
| "scatter (False # ms) (c # cs) ss = c # scatter ms cs ss"
| "scatter ms cs ss = cs"

definition index_add :: "bool list \<Rightarrow> hidden \<Rightarrow> hidden \<Rightarrow> error + hidden" where
  "index_add msk combined_output expert_output =
     (case bool_index msk combined_output of
        Inl e \<Rightarrow> Inl e
      | Inr selected \<Rightarrow>
          (case bcast2 (+) selected expert_output of
             Inl e \<Rightarrow> Inl e
           | Inr summed \<Rightarrow>
               if map length summed = map length selected
               then Inr (scatter msk combined_output summed)
               else Inl RuntimeError))"

fun combine_loop :: "nat list list \<Rightarrow> nat \<Rightarrow> hidden list \<Rightarrow> hidden \<Rightarrow> error + hidden" where
  "combine_loop routing_indices expert_idx [] combined_output = Inr combined_output"
| "combine_loop routing_indices expert_idx (expert_output # rest) combined_output =
     (if length expert_output = 0
      then combine_loop routing_indices (Suc expert_idx) rest combined_output
      else
        (case index_add (expert_mask routing_indices expert_idx) combined_output expert_output of
           Inl e \<Rightarrow> Inl e
         | Inr combined_output' \<Rightarrow>
             combine_loop routing_indices (Suc expert_idx) rest combined_output'))"

text \<open>\<open>expert_outputs[0].device\<close> raises \<open>IndexError\<close> on an empty list.\<close>

definition combine_expert_outputs ::
  "hidden list \<Rightarrow> nat list list \<Rightarrow> nat \<times> nat \<Rightarrow> error + hidden"
where
  "combine_expert_outputs expert_outputs routing_indices original_shape =
     (if expert_outputs = [] then Inl IndexError
      else combine_loop routing_indices 0 expert_outputs
             (replicate (fst original_shape) (replicate (snd original_shape) 0)))"

text \<open>
  The first part of \<open>_core_forward\<close>, up to and including the call of
  \<open>_combine_expert_outputs\<close>.
\<close>

definition routed_output :: "Qwen2MoELayer \<Rightarrow> hidden \<Rightarrow> error + hidden" where
  "routed_output self hidden_states =
     (case compute_router_probabilities self hidden_states of
        Inl e \<Rightarrow> Inl e
      | Inr (routing_weights, routing_indices) \<Rightarrow>
          (case dispatch_tokens self hidden_states routing_weights routing_indices of
             Inl e \<Rightarrow> Inl e
           | Inr dispatched \<Rightarrow>
               (case run_experts (experts self) 0 dispatched of
                  Inl e \<Rightarrow> Inl e
                | Inr expert_outputs \<Rightarrow>
                    combine_expert_outputs expert_outputs routing_indices (shape hidden_states))))"

definition core_forward :: "Qwen2MoELayer \<Rightarrow> hidden \<Rightarrow> error + hidden" where
  "core_forward self hidden_states =
     (case routed_output self hidden_states of
        Inl e \<Rightarrow> Inl e
      | Inr output \<Rightarrow>
          if enable_shared_expert self then
            (case Qwen2MLP_forward (shared_expert self) hidden_states of
               Inl e \<Rightarrow> Inl e
             | Inr shared_expert_output \<Rightarrow>
                 (let shared_gate = map (\<lambda>h. [sigmoid (shared_expert_gate self h)]) hidden_states
                  in case bcast2 (*) shared_gate shared_expert_output of
                       Inl e \<Rightarrow> Inl e
                     | Inr gated \<Rightarrow> bcast2 (+) output gated))
          else Inr output)"

text \<open>
  \<open>forward\<close>: with recomputation the same function runs under \<open>CheckpointFunction\<close>,
  which changes what is kept for the backward pass and not the value.
\<close>

definition Qwen2MoELayer_forward :: "Qwen2MoELayer \<Rightarrow> hidden \<Rightarrow> error + hidden" where
  "Qwen2MoELayer_forward self hidden_states =
     (if moe_recompute_layer self \<and> training self then core_forward self hidden_states
      else core_forward self hidden_states)"


section \<open>qwen.py: Qwen2DecoderLayer and the stack of layers\<close>

datatype mlp_block = Dense Qwen2MLP | MoE Qwen2MoELayer

fun mlp_forward :: "mlp_block \<Rightarrow> hidden \<Rightarrow> error + hidden" where
  "mlp_forward (Dense m) hidden_states = Qwen2MLP_forward m hidden_states"
| "mlp_forward (MoE m) hidden_states = Qwen2MoELayer_forward m hidden_states"

record Qwen2DecoderLayer =
  input_layernorm :: "row \<Rightarrow> row"
  attn :: Qwen2Attention
  post_attention_layernorm :: "row \<Rightarrow> row"
  mlp :: mlp_block
  recompute_layer :: bool

definition decoder_core_forward ::
  "(string \<Rightarrow> attention_function option) \<Rightarrow> (hidden \<Rightarrow> error + hidden) \<Rightarrow> Qwen2DecoderLayer
   \<Rightarrow> hidden \<Rightarrow> position_ids \<Rightarrow> error + hidden \<times> position_ids"
where
  "decoder_core_forward ALL_ATTENTION_FUNCTIONS layout self hidden_states0 position_ids =
     (let residual = hidden_states0;
          hidden_states = map (input_layernorm self) hidden_states0
      in case Qwen2Attention_forward ALL_ATTENTION_FUNCTIONS layout (attn self)
                hidden_states position_ids of
           Inl e \<Rightarrow> Inl e
         | Inr (output_hidden_states, output_position_ids) \<Rightarrow>
             (case bcast2 (+) output_hidden_states residual of
                Inl e \<Rightarrow> Inl e
              | Inr hidden_states1 \<Rightarrow>
                  (case mlp_forward (mlp self)
                          (map (post_attention_layernorm self) hidden_states1) of
                     Inl e \<Rightarrow> Inl e
                   | Inr hidden_states2 \<Rightarrow>
                       (case bcast2 (+) hidden_states2 hidden_states1 of
                          Inl e \<Rightarrow> Inl e
                        | Inr hidden_states3 \<Rightarrow>
                            Inr (hidden_states3, Pos1 output_position_ids)))))"

text \<open>
  \<open>Qwen2DecoderLayer.forward\<close> on tensors that live on this pipeline rank. With
  \<open>recompute_layer\<close> the same function runs under \<open>CheckpointFunction\<close>.
\<close>

definition Qwen2DecoderLayer_forward ::
  "(string \<Rightarrow> attention_function option) \<Rightarrow> (hidden \<Rightarrow> error + hidden) \<Rightarrow> Qwen2DecoderLayer
   \<Rightarrow> hidden \<Rightarrow> position_ids \<Rightarrow> error + hidden \<times> position_ids"
where
  "Qwen2DecoderLayer_forward ALL_ATTENTION_FUNCTIONS layout self hidden_states position_ids =
     (if recompute_layer self
      then decoder_core_forward ALL_ATTENTION_FUNCTIONS layout self hidden_states position_ids
      else decoder_core_forward ALL_ATTENTION_FUNCTIONS layout self hidden_states position_ids)"

text \<open>
  The loop \<open>for decoder_layer in self.decoder: decoder_states =
  decoder_layer(**decoder_states)\<close> of \<open>Qwen2Model.forward\<close>, with the position ids that
  each layer is called with recorded in call order.
\<close>

fun run_decoder ::
  "(string \<Rightarrow> attention_function option) \<Rightarrow> (hidden \<Rightarrow> error + hidden) \<Rightarrow> Qwen2DecoderLayer list
   \<Rightarrow> hidden \<Rightarrow> position_ids \<Rightarrow> position_ids list \<times> (error + hidden \<times> position_ids)"
where
  "run_decoder R layout [] hidden_states position_ids = ([], Inr (hidden_states, position_ids))"
| "run_decoder R layout (decoder_layer # rest) hidden_states position_ids =
     (case Qwen2DecoderLayer_forward R layout decoder_layer hidden_states position_ids of
        Inl e \<Rightarrow> ([position_ids], Inl e)
      | Inr (hidden_states', position_ids') \<Rightarrow>
          (case run_decoder R layout rest hidden_states' position_ids' of
             (seen, result) \<Rightarrow> (position_ids # seen, result)))"

text \<open>A layer with sliding-window attention switched on: window 2, from layer 0 on.\<close>

definition windowed_attention :: CoreAttention where
  "windowed_attention =
     \<lparr>config = \<lparr>use_sliding_window = True, sliding_window = Some 2, max_window_layers = 0,
                 attn_implementation = ''flash_attention_2''\<rparr>,
      layer_idx = 0, head_dim = 4\<rparr>"


text \<open>
  A small decoder: an attention function that hands back its queries, identity
  normalisations and projections, and a dense block of width 1.
\<close>

definition example_registry :: "string \<Rightarrow> attention_function option" where
  "example_registry key = Some (\<lambda>self q k v kw. Inr q)"

definition example_attention :: Qwen2Attention where
  "example_attention =
     \<lparr>qkv_rotary = (\<lambda>hs ps. Inr (hs, hs, hs)),
      attention = \<lparr>config = \<lparr>use_sliding_window = False, sliding_window = None,
                              max_window_layers = 0, attn_implementation = ''sdpa''\<rparr>,
                   layer_idx = 0, head_dim = 1\<rparr>,
      o_proj = (\<lambda>x. x)\<rparr>"

definition example_layer :: Qwen2DecoderLayer where
  "example_layer =
     \<lparr>input_layernorm = (\<lambda>x. x), attn = example_attention,
      post_attention_layernorm = (\<lambda>x. x),
      mlp = Dense \<lparr>gate_up_proj = (\<lambda>x. x @ x), down_proj = (\<lambda>x. x), act = (\<lambda>x. x)\<rparr>,
      recompute_layer = False\<rparr>"


section \<open>Properties of the sanity checks\<close>


lemma any_map: "any (map f t) \<longleftrightarrow> (\<exists>x \<in> set t. f x)"
  by (auto simp: any_def)

lemma check_grads_step:
  "check_grads pc ga (np # rest) lg =
     (if \<not> requires_grad (snd np) then check_grads pc ga rest lg
      else case grad_of ga np of
             None \<Rightarrow> Inl TypeError
           | Some t \<Rightarrow>
               if nonfinite t
               then Inl (ValueError (''Gradient is nan or inf for '' @ reported_name np))
               else check_grads pc ga rest lg)"
proof -
  obtain name0 p where np: "np = (name0, p)" by (cases np)
  show ?thesis
    unfolding np grad_of_def reported_name_def nonfinite_def
    by (cases ga; cases "grad p"; simp add: Let_def any_map split: option.splits; blast?)
qed

declare check_grads.simps [simp del]

lemma check_grads_passes:
  "\<forall>np \<in> set ps. passes ga np \<Longrightarrow> check_grads pc ga (ps @ qs) lg = check_grads pc ga qs lg"
proof (induction ps)
  case Nil
  then show ?case by (simp add: check_grads.simps)
next
  case (Cons np ps)
  obtain name0 p where np: "np = (name0, p)" by (cases np)
  from Cons.prems have pn: "passes ga np" and rest: "\<forall>np \<in> set ps. passes ga np" by simp_all
  have "check_grads pc ga (np # ps @ qs) lg = check_grads pc ga (ps @ qs) lg"
    using pn by (auto simp: check_grads_step passes_def)
  then show ?case using Cons.IH [OF rest] by simp
qed

lemma check_grads_nonfinite:
  assumes "requires_grad (snd np)" and "grad_of ga np = Some t" and "nonfinite t"
  shows "check_grads pc ga (np # qs) lg = Inl (ValueError (''Gradient is nan or inf for '' @ reported_name np))"
proof -
  obtain name0 p where np: "np = (name0, p)" by (cases np)
  show ?thesis
    using assms by (simp add: check_grads_step)
qed

lemma check_grads_missing:
  assumes "requires_grad (snd np)" and "grad_of ga np = None"
  shows "check_grads pc ga (np # qs) lg = Inl TypeError"
proof -
  obtain name0 p where np: "np = (name0, p)" by (cases np)
  show ?thesis
    using assms by (simp add: check_grads_step)
qed

lemma check_grads_log: "check_grads pc ga ps lg = Inr lg' \<Longrightarrow> lg' = lg"
proof (induction ps arbitrary: lg)
  case Nil
  then show ?case by (simp add: check_grads.simps)
next
  case (Cons np ps)
  obtain name0 p where np: "np = (name0, p)" by (cases np)
  show ?case
  proof (cases "passes ga np")
    case True
    then have "check_grads pc ga (np # ps) lg = check_grads pc ga ps lg"
      using check_grads_passes [of "[np]" ga pc ps lg] by simp
    with Cons show ?thesis by simp
  next
    case False
    then have rg: "requires_grad (snd np)" by (simp add: passes_def)
    show ?thesis
    proof (cases "grad_of ga np")
      case None
      with rg Cons.prems check_grads_missing show ?thesis by fastforce
    next
      case (Some t)
      with False rg have "nonfinite t" by (simp add: passes_def)
      with rg Some Cons.prems check_grads_nonfinite show ?thesis by fastforce
    qed
  qed
qed

lemma check_grads_raises:
  assumes "np \<in> set ps" "requires_grad (snd np)" "grad_of ga np = Some t" "nonfinite t"
  shows "isl (check_grads pc ga ps lg)"
  using assms(1)
proof (induction ps)
  case Nil
  then show ?case by (simp add: check_grads.simps)
next
  case (Cons a ps)
  show ?case
  proof (cases "passes ga a")
    case True
    then have eq: "check_grads pc ga (a # ps) lg = check_grads pc ga ps lg"
      using check_grads_passes [of "[a]" ga pc ps lg] by simp
    from True assms have "a \<noteq> np" by (auto simp: passes_def)
    with Cons show ?thesis by (simp add: eq)
  next
    case False
    then have rg: "requires_grad (snd a)" by (simp add: passes_def)
    show ?thesis
    proof (cases "grad_of ga a")
      case None
      with rg show ?thesis by (simp add: check_grads_missing)
    next
      case (Some t)
      with False rg have "nonfinite t" by (simp add: passes_def)
      with rg Some show ?thesis by (simp add: check_grads_nonfinite)
    qed
  qed
qed


lemma set_take_nth: "i \<le> length ps \<Longrightarrow> \<forall>j<i. P (ps ! j) \<Longrightarrow> \<forall>x \<in> set (take i ps). P x"
  by (simp add: all_set_conv_all_nth)

lemma check_grads_first_nonfinite:
  assumes "i < length ps" "requires_grad (snd (ps ! i))" "grad_of ga (ps ! i) = Some t"
    "nonfinite t" "\<forall>j<i. passes ga (ps ! j)"
  shows "check_grads pc ga ps lg
         = Inl (ValueError (''Gradient is nan or inf for '' @ reported_name (ps ! i)))"
proof -
  have split: "ps = take i ps @ (ps ! i) # drop (Suc i) ps"
    using assms(1) by (simp add: id_take_nth_drop)
  have "\<forall>np \<in> set (take i ps). passes ga np"
    using assms(1,5) by (intro set_take_nth) simp_all
  then have "check_grads pc ga (take i ps @ (ps ! i) # drop (Suc i) ps) lg
             = check_grads pc ga ((ps ! i) # drop (Suc i) ps) lg"
    by (rule check_grads_passes)
  also have "\<dots> = Inl (ValueError (''Gradient is nan or inf for '' @ reported_name (ps ! i)))"
    using assms(2-4) by (rule check_grads_nonfinite)
  finally show ?thesis using split by simp
qed

text \<open>
  With the sanity checks enabled, a non-finite gradient anywhere among the parameters
  that require gradients makes the check raise.
\<close>

lemma nonfinite_gradient_aborts:
  assumes "\<not> ignore_sanity_checks"
    and "i < length (named_parameters unwrapped_model)"
    and "requires_grad (snd (named_parameters unwrapped_model ! i))"
    and "grad_of ga (named_parameters unwrapped_model ! i) = Some t"
    and "nonfinite t"
  shows "isl (after_tbi_sanity_checks ignore_sanity_checks pc unwrapped_model ga lg)"
proof -
  let ?ps = "named_parameters unwrapped_model"
  have mem: "?ps ! i \<in> set ?ps" using assms(2) by simp
  have "isl (check_grads pc ga ?ps lg)"
    using mem assms(3-5) by (rule check_grads_raises)
  then show ?thesis
    using assms(1) by (auto simp: after_tbi_sanity_checks_def isl_def)
qed

text \<open>
  C6, as stated, fails on the code: the loop raises at the first parameter with a
  non-finite gradient and never looks at the later ones, so with two such parameters the
  message names the first and not the second.
\<close>

theorem nonfinite_gradient_second_parameter_counterexample:
  "requires_grad (snd (named_parameters two_nonfinite_model ! 1))
   \<and> grad_of None (named_parameters two_nonfinite_model ! 1) = Some [NaN]
   \<and> nonfinite [NaN]
   \<and> reported_name (named_parameters two_nonfinite_model ! 1) = ''b.weight''
   \<and> after_tbi_sanity_checks False \<lparr>world_rank = 0, world_size = 1\<rparr> two_nonfinite_model None []
       = Inl (ValueError ''Gradient is nan or inf for a.weight'')
   \<and> after_tbi_sanity_checks False \<lparr>world_rank = 0, world_size = 1\<rparr> two_nonfinite_model None []
       \<noteq> Inl (ValueError ''Gradient is nan or inf for b.weight'')"
  by (simp add: two_nonfinite_model_def after_tbi_sanity_checks_def check_grads_step
        grad_of_def reported_name_def nonfinite_def check_grads.simps)

text \<open>
  C6, amended. With the sanity checks enabled (\<open>ignore_sanity_checks\<close> off), the first
  parameter in the order of \<open>named_parameters\<close> that requires gradients and whose
  gradient (the accumulator's buffer when there is an accumulator, \<open>param.grad\<close>
  otherwise) holds a NaN or an infinity makes \<open>after_tbi_sanity_checks\<close> raise
  \<open>ValueError\<close> at once: provided every parameter before it either requires no gradient
  or has a gradient that is present and finite, the result is the \<open>ValueError\<close> whose
  message is \<open>Gradient is nan or inf for\<close> followed by that parameter's name (the tied
  name for a tied parameter); the later parameters and the model's own checks are not run.
\<close>

theorem nonfinite_gradient_raises:
  assumes "\<not> ignore_sanity_checks"
    and "i < length (named_parameters unwrapped_model)"
    and "requires_grad (snd (named_parameters unwrapped_model ! i))"
    and "grad_of ga (named_parameters unwrapped_model ! i) = Some t"
    and "nonfinite t"
    and "\<forall>j<i. passes ga (named_parameters unwrapped_model ! j)"
  shows "after_tbi_sanity_checks ignore_sanity_checks pc unwrapped_model ga lg
         = Inl (ValueError (''Gradient is nan or inf for ''
                             @ reported_name (named_parameters unwrapped_model ! i)))"
  using check_grads_first_nonfinite [OF assms(2-6), of pc lg] assms(1)
  by (simp add: after_tbi_sanity_checks_def)

theorem nonfinite_gradient_raises_witness:
  "after_tbi_sanity_checks False \<lparr>world_rank = 0, world_size = 2\<rparr> example_model None []
   = Inl (ValueError ''Gradient is nan or inf for embed.tied'')"
proof -
  have ps: "named_parameters example_model ! 2
            = (''lm_head.weight'', \<lparr>requires_grad = True, is_tied = True,
                 tied_full_name = ''embed.tied'', grad = Some [Finite 2, NaN]\<rparr>)"
    by (simp add: example_model_def)
  have h2: "2 < length (named_parameters example_model)" by (simp add: example_model_def)
  have h3: "requires_grad (snd (named_parameters example_model ! 2))" by (simp add: ps)
  have h4: "grad_of None (named_parameters example_model ! 2) = Some [Finite 2, NaN]"
    by (simp add: ps grad_of_def)
  have h5: "nonfinite [Finite 2, NaN]" by (simp add: nonfinite_def)
  have h6: "\<forall>j<2. passes None (named_parameters example_model ! j)"
  proof (intro allI impI)
    fix j :: nat assume "j < 2"
    then consider "j = 0" | "j = 1" by linarith
    then show "passes None (named_parameters example_model ! j)"
      by cases (simp_all add: example_model_def passes_def grad_of_def nonfinite_def)
  qed
  have h1: "\<not> False" by simp
  from nonfinite_gradient_raises [OF h1 h2 h3 h4 h5 h6, of "\<lparr>world_rank = 0, world_size = 2\<rparr>" "[]"]
  show ?thesis by (simp add: ps reported_name_def)
qed

text \<open>
  C7. A parameter that requires gradients and has no gradient: \<open>torch.isnan(grad)\<close> is
  evaluated before \<open>grad is None\<close> and raises \<open>TypeError\<close> on \<open>None\<close>, so the check
  aborts and nothing is logged.
\<close>

theorem missing_gradient_raises_TypeError:
  "after_tbi_sanity_checks False \<lparr>world_rank = 0, world_size = 1\<rparr>
     \<lparr>named_parameters =
        [(''w'', \<lparr>requires_grad = True, is_tied = False, tied_full_name = [], grad = None\<rparr>)],
      model_after_tbi_sanity_checks = None\<rparr> None []
   = Inl TypeError"
  by (simp add: after_tbi_sanity_checks_def check_grads.simps)

text \<open>
  The branch that logs a missing gradient is never taken: a run that returns leaves the
  log as it was, and a missing gradient that is reached raises.
\<close>

lemma after_tbi_never_logs:
  "after_tbi_sanity_checks ign pc m ga lg = Inr lg' \<Longrightarrow> lg' = lg"
  by (auto simp: after_tbi_sanity_checks_def split: if_splits sum.splits option.splits
           dest: check_grads_log)

lemma after_tbi_missing_gradient:
  assumes "\<not> ign" "i < length (named_parameters m)"
    "requires_grad (snd (named_parameters m ! i))" "grad_of ga (named_parameters m ! i) = None"
    "\<forall>j<i. passes ga (named_parameters m ! j)"
  shows "after_tbi_sanity_checks ign pc m ga lg = Inl TypeError"
proof -
  let ?ps = "named_parameters m"
  have split: "?ps = take i ?ps @ (?ps ! i) # drop (Suc i) ?ps"
    using assms(2) by (simp add: id_take_nth_drop)
  have "\<forall>np \<in> set (take i ?ps). passes ga np"
    using assms(2,5) by (intro set_take_nth) simp_all
  then have "check_grads pc ga (take i ?ps @ (?ps ! i) # drop (Suc i) ?ps) lg
             = check_grads pc ga ((?ps ! i) # drop (Suc i) ?ps) lg"
    by (rule check_grads_passes)
  also have "\<dots> = Inl TypeError"
    using assms(3,4) by (rule check_grads_missing)
  finally have "check_grads pc ga ?ps lg = Inl TypeError" using split by simp
  then show ?thesis using assms(1) by (simp add: after_tbi_sanity_checks_def)
qed

text \<open>
  On the reference rank the tensor is compared with itself. That passes whenever the
  tensor holds no NaN, whatever the other ranks hold.
\<close>

lemma isclose_refl: "0 \<le> rtol \<Longrightarrow> 0 \<le> atol \<Longrightarrow> \<not> isnan x \<Longrightarrow> isclose rtol atol x x"
  by (cases x) simp_all

lemma reference_rank_passes_without_nan:
  assumes "0 \<le> rtol" "0 \<le> atol" "reference_rank < length pg"
    "\<forall>x \<in> set (pg ! reference_rank). \<not> isnan x"
  shows "assert_tensor_synced_across_pg rtol atol pg reference_rank msg reference_rank = Inr ()"
  using assms
  by (auto simp: assert_tensor_synced_across_pg_def broadcast_def assert_close_def Let_def
        list_all2_same isclose_refl)

text \<open>
  C9. On the reference rank a tensor that holds a NaN is not close to itself
  (\<open>equal_nan\<close> is left at \<open>False\<close>), so the check raises there.
\<close>

theorem reference_rank_fails_on_nan:
  "assert_tensor_synced_across_pg rtol atol [[NaN], [NaN]] 0 None 0
   = Inl (AssertionError ''Tensor-likes are not close!'')"
  by (simp add: assert_tensor_synced_across_pg_def broadcast_def assert_close_def)


section \<open>Properties of the packed causal mask\<close>


lemma set_tril_ok:
  assumes "a \<le> b" "b \<le> n"
  shows "set_tril n a b m =
     Inr (map (\<lambda>i. map (\<lambda>j. if a \<le> i \<and> i < b \<and> a \<le> j \<and> j < b then j \<le> i else m ! i ! j)
                         [0..<n]) [0..<n])"
  using assms by (simp add: set_tril_def min_def)

lemma make_trius_ok:
  assumes "\<forall>(a, b) \<in> set ps. a \<le> b \<and> b \<le> n" "square n m"
  shows "\<exists>m'. make_trius n ps m = Inr m' \<and> square n m' \<and>
           (\<forall>i<n. \<forall>j<n. m' ! i ! j =
              (if \<exists>(a, b) \<in> set ps. a \<le> i \<and> i < b \<and> a \<le> j \<and> j < b then j \<le> i else m ! i ! j))"
  using assms
proof (induction ps arbitrary: m)
  case Nil
  then show ?case by simp
next
  case (Cons p ps)
  obtain a b where p: "p = (a, b)" by (cases p)
  from Cons.prems have ab: "a \<le> b" "b \<le> n" and rest: "\<forall>(a, b) \<in> set ps. a \<le> b \<and> b \<le> n"
    by (auto simp: p)
  let ?m1 = "map (\<lambda>i. map (\<lambda>j. if a \<le> i \<and> i < b \<and> a \<le> j \<and> j < b then j \<le> i else m ! i ! j)
                         [0..<n]) [0..<n]"
  have s1: "set_tril n a b m = Inr ?m1" using ab by (rule set_tril_ok)
  have sq1: "square n ?m1" by (auto simp: square_def)
  from Cons.IH [OF rest sq1] obtain m' where m': "make_trius n ps ?m1 = Inr m'" "square n m'"
    "\<forall>i<n. \<forall>j<n. m' ! i ! j =
              (if \<exists>(a, b) \<in> set ps. a \<le> i \<and> i < b \<and> a \<le> j \<and> j < b then j \<le> i else ?m1 ! i ! j)"
    by blast
  have "make_trius n (p # ps) m = Inr m'" by (simp add: p s1 m'(1))
  moreover have "\<forall>i<n. \<forall>j<n. m' ! i ! j =
      (if \<exists>(a, b) \<in> set (p # ps). a \<le> i \<and> i < b \<and> a \<le> j \<and> j < b then j \<le> i else m ! i ! j)"
    using m'(3) by (auto simp: p)
  ultimately show ?case using m'(2) by blast
qed

text \<open>Consecutive pairs of a strictly increasing list.\<close>

lemma pairs_sorted:
  assumes "sorted_wrt (<) (cu :: nat list)" "(a, b) \<in> set (zip cu (tl cu))"
  shows "a < b \<and> a \<in> set (butlast cu) \<and> b \<in> set cu \<and> (\<forall>c \<in> set cu. \<not> (a < c \<and> c < b))"
  using assms
proof (induction cu rule: induct_list012)
  case 1
  then show ?case by simp
next
  case (2 x)
  then show ?case by simp
next
  case (3 x y zs)
  from "3.prems"(1) have xy: "x < y" and sy: "sorted_wrt (<) (y # zs)"
    and xall: "\<forall>z \<in> set (y # zs). x < z" by auto
  from "3.prems"(2) consider "(a, b) = (x, y)" | "(a, b) \<in> set (zip (y # zs) (tl (y # zs)))"
    by auto
  then show ?case
  proof cases
    case 1
    then show ?thesis using xy sy xall by auto
  next
    case 2
    from "3.IH"(2) [OF sy 2] have ih: "a < b" "a \<in> set (butlast (y # zs))" "b \<in> set (y # zs)"
      "\<forall>c \<in> set (y # zs). \<not> (a < c \<and> c < b)" by auto
    from ih(2) have "a \<in> set (y # zs)" by (meson in_set_butlastD)
    with xall have "x < a" by auto
    with ih show ?thesis by auto
  qed
qed

lemma pairs_exists:
  assumes "a \<in> set (butlast cu)"
  shows "\<exists>b. (a, b) \<in> set (zip cu (tl cu))"
  using assms
proof (induction cu rule: induct_list012)
  case 1
  then show ?case by simp
next
  case (2 x)
  then show ?case by simp
next
  case (3 x y zs)
  then show ?case by (cases "a = x") auto
qed

lemma start_indices_set: "set (start_indices ps) = {i. i < length ps \<and> ps ! i = 0}"
  by (auto simp: start_indices_def)

lemma start_indices_sorted: "sorted_wrt (<) (start_indices ps)"
  unfolding start_indices_def by (rule sorted_wrt_filter) (simp add: sorted_wrt_upt)

lemma cu_sorted: "length ps \<le> n \<Longrightarrow> sorted_wrt (<) (start_indices ps @ [n])"
  by (auto simp: sorted_wrt_append start_indices_sorted start_indices_set)

lemma block_iff:
  fixes ps :: "int list"
  defines "cu \<equiv> start_indices ps @ [length ps]"
  assumes "i < length ps" "j \<le> i"
  shows "(\<exists>(a, b) \<in> set (zip cu (tl cu)). a \<le> j \<and> i < b)
         \<longleftrightarrow> (\<exists>t\<le>j. ps ! t = 0) \<and> (\<forall>t. j < t \<and> t \<le> i \<longrightarrow> ps ! t \<noteq> 0)"
proof
  have srt: "sorted_wrt (<) cu" unfolding cu_def by (rule cu_sorted) simp
  have bl: "butlast cu = start_indices ps" by (simp add: cu_def)
  {
    assume "\<exists>(a, b) \<in> set (zip cu (tl cu)). a \<le> j \<and> i < b"
    then obtain a b where ab: "(a, b) \<in> set (zip cu (tl cu))" "a \<le> j" "i < b" by blast
    from pairs_sorted [OF srt ab(1)] have a: "a \<in> set (start_indices ps)"
      and nobetween: "\<forall>c \<in> set cu. \<not> (a < c \<and> c < b)" by (simp_all add: bl)
    from a have "ps ! a = 0" by (simp add: start_indices_set)
    with ab(2) have one: "\<exists>t\<le>j. ps ! t = 0" by blast
    have two: "ps ! t \<noteq> 0" if "j < t" "t \<le> i" for t
    proof
      assume "ps ! t = 0"
      with that assms(2) have "t \<in> set cu" by (simp add: cu_def start_indices_set)
      with nobetween have "\<not> (a < t \<and> t < b)" by blast
      with that ab show False by linarith
    qed
    from one two show "(\<exists>t\<le>j. ps ! t = 0) \<and> (\<forall>t. j < t \<and> t \<le> i \<longrightarrow> ps ! t \<noteq> 0)" by blast
  }
  {
    assume r: "(\<exists>t\<le>j. ps ! t = 0) \<and> (\<forall>t. j < t \<and> t \<le> i \<longrightarrow> ps ! t \<noteq> 0)"
    let ?Z = "{t. t \<le> j \<and> ps ! t = 0}"
    have fin: "finite ?Z" by simp
    from r have ne: "?Z \<noteq> {}" by blast
    define a where "a = Max ?Z"
    have aZ: "a \<in> ?Z" unfolding a_def using fin ne by (rule Max_in)
    then have a: "a \<le> j" "ps ! a = 0" by simp_all
    have amax: "t \<le> a" if "t \<le> j" "ps ! t = 0" for t
      unfolding a_def using that by (intro Max_ge) simp_all
    from a assms have "a \<in> set (butlast cu)" by (simp add: bl start_indices_set)
    from pairs_exists [OF this] obtain b where ab: "(a, b) \<in> set (zip cu (tl cu))" by blast
    from pairs_sorted [OF srt ab] have "a < b" and bcu: "b \<in> set cu" by simp_all
    have "i < b"
    proof (rule ccontr)
      assume "\<not> i < b"
      then have bi: "b \<le> i" by simp
      with assms(2) bcu have bz: "ps ! b = 0" by (auto simp: cu_def start_indices_set)
      show False
      proof (cases "b \<le> j")
        case True
        with bz amax have "b \<le> a" by blast
        with \<open>a < b\<close> show False by simp
      next
        case False
        with bi bz r show False by auto
      qed
    qed
    with ab a(1) show "\<exists>(a, b) \<in> set (zip cu (tl cu)). a \<le> j \<and> i < b" by blast
  }
qed

lemma pairs_in_range:
  fixes ps :: "int list"
  defines "cu \<equiv> start_indices ps @ [length ps]"
  shows "\<forall>(a, b) \<in> set (zip cu (tl cu)). a \<le> b \<and> b \<le> length ps"
proof -
  have srt: "sorted_wrt (<) cu" unfolding cu_def by (rule cu_sorted) simp
  have "a \<le> b \<and> b \<le> length ps" if "(a, b) \<in> set (zip cu (tl cu))" for a b
  proof -
    from pairs_sorted [OF srt that] have "a < b" "b \<in> set cu" by simp_all
    then show ?thesis by (auto simp: cu_def start_indices_set)
  qed
  then show ?thesis by blast
qed

lemma attention_mask_blocks_aux:
  fixes position_ids :: "int list"
  defines "n \<equiv> length position_ids"
  shows "\<exists>m cu. get_attention_mask position_ids n = Inr (m, cu)
     \<and> length m = n \<and> (\<forall>r \<in> set m. length r = n)
     \<and> (\<forall>i<n. \<forall>j<n. m ! i ! j \<longleftrightarrow>
           j \<le> i \<and> (\<exists>t\<le>j. position_ids ! t = 0)
                 \<and> (\<forall>t. j < t \<and> t \<le> i \<longrightarrow> position_ids ! t \<noteq> 0))
     \<and> cu = start_indices position_ids @ [n]
     \<and> sorted_wrt (<) cu
     \<and> set (butlast cu) = {t. t < n \<and> position_ids ! t = 0}
     \<and> last cu = n"
proof -
  let ?cu = "start_indices position_ids @ [n]"
  let ?m0 = "replicate n (replicate n False)"
  have sq0: "square n ?m0" by (simp add: square_def)
  have rng: "\<forall>(a, b) \<in> set (zip ?cu (tl ?cu)). a \<le> b \<and> b \<le> n"
    unfolding n_def by (rule pairs_in_range)
  from make_trius_ok [OF rng sq0] obtain m where m: "make_trius n (zip ?cu (tl ?cu)) ?m0 = Inr m"
    "square n m"
    "\<forall>i<n. \<forall>j<n. m ! i ! j =
       (if \<exists>(a, b) \<in> set (zip ?cu (tl ?cu)). a \<le> i \<and> i < b \<and> a \<le> j \<and> j < b then j \<le> i
        else ?m0 ! i ! j)"
    by blast
  have g: "get_attention_mask position_ids n = Inr (m, ?cu)"
    by (simp add: get_attention_mask_def Let_def m(1))
  have entries: "m ! i ! j \<longleftrightarrow>
           j \<le> i \<and> (\<exists>t\<le>j. position_ids ! t = 0)
                 \<and> (\<forall>t. j < t \<and> t \<le> i \<longrightarrow> position_ids ! t \<noteq> 0)" if ij: "i < n" "j < n" for i j
  proof (cases "j \<le> i")
    case True
    have "m ! i ! j \<longleftrightarrow> (\<exists>(a, b) \<in> set (zip ?cu (tl ?cu)). a \<le> i \<and> i < b \<and> a \<le> j \<and> j < b)"
      using m(3) ij True by simp
    also have "\<dots> \<longleftrightarrow> (\<exists>(a, b) \<in> set (zip ?cu (tl ?cu)). a \<le> j \<and> i < b)"
      by (rule bex_cong [OF refl]) (use True in auto)
    also have "\<dots> \<longleftrightarrow> (\<exists>t\<le>j. position_ids ! t = 0)
                 \<and> (\<forall>t. j < t \<and> t \<le> i \<longrightarrow> position_ids ! t \<noteq> 0)"
      using block_iff [of i position_ids j] ij True by (simp add: n_def)
    finally show ?thesis using True by simp
  next
    case False
    then show ?thesis using m(3) ij by simp
  qed
  have "sorted_wrt (<) ?cu" unfolding n_def by (rule cu_sorted) simp
  moreover have "set (butlast ?cu) = {t. t < n \<and> position_ids ! t = 0}"
    by (simp add: start_indices_set n_def)
  ultimately show ?thesis using g m(2) entries by (simp add: square_def)
qed

text \<open>
  C2, as stated, fails on the code for the tokens in front of the first position zero:
  \<open>cu_seqlens\<close> starts with the first index whose position is zero, so no block covers
  the tokens before it and their rows stay empty, the diagonal included. With position ids
  \<open>[1, 0]\<close> the entry \<open>mask[0][0]\<close> is false although \<open>0 \<le> 0\<close> and no position zero
  lies in \<open>(0, 0]\<close>.
\<close>

theorem attention_mask_leading_tokens_counterexample:
  "get_attention_mask [1, 0] 2 = Inr ([[False, False], [False, True]], [1, 2])
   \<and> block_diagonal_claim [1, 0] 0 0
   \<and> \<not> [[False, False], [False, True]] ! 0 ! 0"
  by code_simp

text \<open>
  C2, amended. For every vector of position ids (padding already remapped to 0) and the
  mask built for its length, \<open>mask[i][j]\<close> is true if and only if \<open>j \<le> i\<close>, some index
  \<open>t \<le> j\<close> has position zero, and no index \<open>t\<close> with position zero lies in \<open>(j, i]\<close>:
  the mask is block-diagonal lower-triangular over the segments that start at a position
  zero. \<open>cu_seqlens\<close> lists the indices with position zero in increasing order and ends
  with the total length.
\<close>

theorem attention_mask_blocks:
  "\<exists>m cu. get_attention_mask position_ids (length position_ids) = Inr (m, cu)
     \<and> length m = length position_ids \<and> (\<forall>r \<in> set m. length r = length position_ids)
     \<and> (\<forall>i<length position_ids. \<forall>j<length position_ids. m ! i ! j \<longleftrightarrow>
           j \<le> i \<and> (\<exists>t\<le>j. position_ids ! t = 0)
                 \<and> (\<forall>t. j < t \<and> t \<le> i \<longrightarrow> position_ids ! t \<noteq> 0))
     \<and> cu = start_indices position_ids @ [length position_ids]
     \<and> sorted_wrt (<) cu
     \<and> set (butlast cu) = {t. t < length position_ids \<and> position_ids ! t = 0}
     \<and> last cu = length position_ids"
  using attention_mask_blocks_aux [of position_ids] by simp

theorem attention_mask_blocks_witness:
  "\<exists>m. get_attention_mask [0, 1, 0, 1] 4 = Inr (m, [0, 2, 4])
       \<and> m ! 1 ! 0 \<and> \<not> m ! 2 ! 1 \<and> m ! 3 ! 2 \<and> \<not> m ! 0 ! 1"
proof -
  let ?ps = "[0, 1, 0, 1] :: int list"
  from attention_mask_blocks [of ?ps] obtain m cu where
    g: "get_attention_mask ?ps (length ?ps) = Inr (m, cu)"
    and e: "\<forall>i<length ?ps. \<forall>j<length ?ps. m ! i ! j \<longleftrightarrow>
           j \<le> i \<and> (\<exists>t\<le>j. ?ps ! t = 0) \<and> (\<forall>t. j < t \<and> t \<le> i \<longrightarrow> ?ps ! t \<noteq> 0)"
    and c: "cu = start_indices ?ps @ [length ?ps]"
    by (elim exE conjE)
  have l0: "0 < length ?ps" and l1: "1 < length ?ps" and l2: "2 < length ?ps"
    and l3: "3 < length ?ps" by simp_all
  have si: "start_indices ?ps = [0, 2]" by code_simp
  have cu: "cu = [0, 2, 4]" by (simp add: c si)
  have z0: "\<exists>t\<le>j. ?ps ! t = 0" for j :: nat
  proof (intro exI conjI)
    show "0 \<le> j" by simp
    show "?ps ! 0 = 0" by simp
  qed
  have a: "m ! 1 ! 0"
  proof -
    have r: "\<forall>t::nat. 0 < t \<and> t \<le> 1 \<longrightarrow> ?ps ! t \<noteq> 0"
    proof (intro allI impI)
      fix t :: nat assume "0 < t \<and> t \<le> 1"
      then have "t = 1" by arith
      then show "?ps ! t \<noteq> 0" by simp
    qed
    have "(0::nat) \<le> 1 \<and> (\<exists>t\<le>0. ?ps ! t = 0) \<and> (\<forall>t::nat. 0 < t \<and> t \<le> 1 \<longrightarrow> ?ps ! t \<noteq> 0)"
      by (intro conjI le0 z0 r)
    then show ?thesis by (rule e [rule_format, OF l1 l0, THEN iffD2])
  qed
  have b: "\<not> m ! 2 ! 1"
  proof
    assume "m ! 2 ! 1"
    then have "(1::nat) \<le> 2 \<and> (\<exists>t\<le>1. ?ps ! t = 0) \<and> (\<forall>t::nat. 1 < t \<and> t \<le> 2 \<longrightarrow> ?ps ! t \<noteq> 0)"
      by (rule e [rule_format, OF l2 l1, THEN iffD1])
    then have "\<forall>t::nat. 1 < t \<and> t \<le> 2 \<longrightarrow> ?ps ! t \<noteq> 0" by (elim conjE)
    then have "(1::nat) < 2 \<and> (2::nat) \<le> 2 \<longrightarrow> ?ps ! 2 \<noteq> 0" by (rule spec)
    then show False by simp
  qed
  have d: "m ! 3 ! 2"
  proof -
    have r: "\<forall>t::nat. 2 < t \<and> t \<le> 3 \<longrightarrow> ?ps ! t \<noteq> 0"
    proof (intro allI impI)
      fix t :: nat assume "2 < t \<and> t \<le> 3"
      then have "t = 3" by arith
      then show "?ps ! t \<noteq> 0" by simp
    qed
    have le: "(2::nat) \<le> 3" by simp
    have "(2::nat) \<le> 3 \<and> (\<exists>t\<le>2. ?ps ! t = 0) \<and> (\<forall>t::nat. 2 < t \<and> t \<le> 3 \<longrightarrow> ?ps ! t \<noteq> 0)"
      by (intro conjI le z0 r)
    then show ?thesis by (rule e [rule_format, OF l3 l2, THEN iffD2])
  qed
  have f: "\<not> m ! 0 ! 1"
  proof
    assume "m ! 0 ! 1"
    then have "(1::nat) \<le> 0 \<and> (\<exists>t\<le>1. ?ps ! t = 0) \<and> (\<forall>t::nat. 1 < t \<and> t \<le> 0 \<longrightarrow> ?ps ! t \<noteq> 0)"
      by (rule e [rule_format, OF l0 l1, THEN iffD1])
    then have "(1::nat) \<le> 0" by (elim conjE)
    then show False by simp
  qed
  have len: "length ?ps = 4" by simp
  have "get_attention_mask ?ps 4 = Inr (m, cu)" using g by (simp only: len)
  then have g4: "get_attention_mask ?ps 4 = Inr (m, [0, 2, 4])" by (simp only: cu)
  from g4 a b d f show ?thesis by blast
qed

text \<open>
  When the first position id is zero, as in every batch that starts with a document or
  with padding, the mask is exactly the one of the specification.
\<close>

lemma attention_mask_first_position_zero:
  assumes "position_ids ! 0 = 0"
    "get_attention_mask position_ids (length position_ids) = Inr (m, cu)"
    "i < length position_ids" "j < length position_ids"
  shows "m ! i ! j \<longleftrightarrow> j \<le> i \<and> (\<forall>t. j < t \<and> t \<le> i \<longrightarrow> position_ids ! t \<noteq> 0)"
proof -
  from attention_mask_blocks_aux [of position_ids] assms(2)
  have "\<forall>i<length position_ids. \<forall>j<length position_ids. m ! i ! j \<longleftrightarrow>
           j \<le> i \<and> (\<exists>t\<le>j. position_ids ! t = 0)
                 \<and> (\<forall>t. j < t \<and> t \<le> i \<longrightarrow> position_ids ! t \<noteq> 0)"
    by auto
  with assms(3,4) have "m ! i ! j \<longleftrightarrow> j \<le> i \<and> (\<exists>t\<le>j. position_ids ! t = 0)
                 \<and> (\<forall>t. j < t \<and> t \<le> i \<longrightarrow> position_ids ! t \<noteq> 0)"
    by blast
  moreover have "\<exists>t\<le>j. position_ids ! t = 0" using assms(1) by blast
  ultimately show ?thesis by simp
qed


section \<open>Properties of the attention module and the decoder stack\<close>


text \<open>
  C4. In a layer at or beyond \<open>max_window_layers\<close>, with \<open>use_sliding_window\<close> set and a
  window configured, the condition of the \<open>if\<close> holds, but the window it reads is
  dropped: the attention function is called without \<open>sliding_window\<close> (and with
  \<open>attention_mask=None\<close> and without \<open>cu_seqlens\<close>), exactly as in a layer without a
  window.
\<close>

theorem sliding_window_not_passed:
  "sliding_window_condition windowed_attention
   \<and> attention_call_kwargs windowed_attention 0
       = Inr \<lparr>kw_attention_mask = None, kw_dropout = 0, kw_scaling = 1 / 2,
               kw_sliding_window = None, kw_cu_seqlens = None\<rparr>"
  by (simp add: windowed_attention_def sliding_window_condition_def attention_call_kwargs_def)

text \<open>
  The keyword arguments of the call depend neither on the sliding-window fields of the
  configuration nor on the layer index, and never carry a window.
\<close>

lemma attention_call_ignores_window:
  "attention_call_kwargs
     (self\<lparr>config := (config self)\<lparr>use_sliding_window := u, sliding_window := w,
                                       max_window_layers := l\<rparr>, layer_idx := i\<rparr>) dropout
   = attention_call_kwargs self dropout"
  by (simp add: attention_call_kwargs_def)

lemma attention_call_no_window:
  "attention_call_kwargs self dropout = Inr kw \<Longrightarrow>
     kw_sliding_window kw = None \<and> kw_attention_mask kw = None \<and> kw_cu_seqlens kw = None"
  by (auto simp: attention_call_kwargs_def split: if_splits)

lemma CoreAttention_forward_ignores_arguments:
  "CoreAttention_forward R layout self q k v (Some m) cu dropout sw
   = CoreAttention_forward R layout self q k v (Some m') cu' dropout sw'"
  by (simp add: CoreAttention_forward_def Let_def split: option.splits)

lemma view_flat_masked_fill:
  "view_flat (masked_fill_padding pos) = map (\<lambda>p. if p = - 1 then 0 else p) (view_flat pos)"
  by (cases pos) (simp_all add: map_concat)

lemma masked_fill_idem:
  "masked_fill_padding (Pos1 (view_flat (masked_fill_padding pos)))
   = Pos1 (view_flat (masked_fill_padding pos))"
  by (simp add: view_flat_masked_fill)

lemma attention_position_ids:
  "Qwen2Attention_forward R layout self hs pos = Inr (out, p)
   \<Longrightarrow> p = view_flat (masked_fill_padding pos)"
  by (auto simp: Qwen2Attention_forward_def Let_def split: sum.splits prod.splits)

lemma decoder_layer_position_ids:
  "Qwen2DecoderLayer_forward R layout self hs pos = Inr (out, p)
   \<Longrightarrow> p = Pos1 (view_flat (masked_fill_padding pos))"
  by (auto simp: Qwen2DecoderLayer_forward_def decoder_core_forward_def Let_def
        split: sum.splits prod.splits if_splits dest: attention_position_ids)

lemma run_decoder_seen_tail:
  assumes "pos = Pos1 (view_flat (masked_fill_padding pos0))"
  shows "\<forall>x \<in> set (fst (run_decoder R layout layers hs pos)). x = pos"
  using assms
proof (induction layers arbitrary: hs)
  case Nil
  then show ?case by simp
next
  case (Cons l layers)
  show ?case
  proof (cases "Qwen2DecoderLayer_forward R layout l hs pos")
    case (Inl e)
    then show ?thesis by simp
  next
    case (Inr r)
    obtain hs' pos' where r: "r = (hs', pos')" by (cases r)
    from decoder_layer_position_ids [OF Inr [unfolded r]] Cons.prems
    have p': "pos' = pos" by (simp add: view_flat_masked_fill)
    from Cons.IH [OF Cons.prems, of hs']
    show ?thesis by (simp add: Inr r p' split: prod.splits)
  qed
qed

lemma run_decoder_seen:
  assumes "0 < i" "i < length (fst (run_decoder R layout layers hs pos))"
  shows "fst (run_decoder R layout layers hs pos) ! i = Pos1 (view_flat (masked_fill_padding pos))"
proof (cases layers)
  case Nil
  with assms show ?thesis by simp
next
  case (Cons l rest)
  show ?thesis
  proof (cases "Qwen2DecoderLayer_forward R layout l hs pos")
    case (Inl e)
    with assms Cons show ?thesis by simp
  next
    case (Inr r)
    obtain hs' pos' where r: "r = (hs', pos')" by (cases r)
    have p': "pos' = Pos1 (view_flat (masked_fill_padding pos))"
      using decoder_layer_position_ids [OF Inr [unfolded r]] .
    have seen: "fst (run_decoder R layout layers hs pos) = pos # fst (run_decoder R layout rest hs' pos')"
      by (simp add: Cons Inr r split: prod.splits)
    from assms seen obtain k where k: "i = Suc k" "k < length (fst (run_decoder R layout rest hs' pos'))"
      by (cases i) auto
    from run_decoder_seen_tail [OF p', of R layout rest hs'] k(2)
    have "fst (run_decoder R layout rest hs' pos') ! k = pos'" by simp
    then show ?thesis by (simp add: seen k(1) p')
  qed
qed

text \<open>
  C10. A call of the attention module that returns gives back, beside the hidden states,
  the position ids flattened and with every \<open>-1\<close> replaced by \<open>0\<close>; they hold no \<open>-1\<close>,
  and no negative entry at all when the input holds none below \<open>-1\<close>. The decoder layer
  returns these position ids, and in the stack of layers every layer after the first is
  called with them, so it never sees a \<open>-1\<close>.
\<close>

theorem position_ids_remapped:
  "(Qwen2Attention_forward R layout self hs pos = Inr (out, p) \<longrightarrow>
      p = view_flat (masked_fill_padding pos)
      \<and> p = map (\<lambda>x. if x = - 1 then 0 else x) (view_flat pos)
      \<and> - 1 \<notin> set p
      \<and> ((\<forall>x \<in> set (view_flat pos). - 1 \<le> x) \<longrightarrow> (\<forall>x \<in> set p. 0 \<le> x)))
   \<and> (Qwen2DecoderLayer_forward R layout layer hs pos = Inr (out', pos') \<longrightarrow>
        pos' = Pos1 (view_flat (masked_fill_padding pos)))
   \<and> (\<forall>i. 0 < i \<and> i < length (fst (run_decoder R layout layers hs pos)) \<longrightarrow>
        fst (run_decoder R layout layers hs pos) ! i = Pos1 (view_flat (masked_fill_padding pos))
        \<and> - 1 \<notin> set (view_flat (fst (run_decoder R layout layers hs pos) ! i)))"
proof (intro conjI impI allI)
  assume a: "Qwen2Attention_forward R layout self hs pos = Inr (out, p)"
  then show p: "p = view_flat (masked_fill_padding pos)" by (rule attention_position_ids)
  then show q: "p = map (\<lambda>x. if x = - 1 then 0 else x) (view_flat pos)"
    by (simp add: view_flat_masked_fill)
  then show "- 1 \<notin> set p" by auto
  assume "\<forall>x \<in> set (view_flat pos). - 1 \<le> x"
  with q show "\<forall>x \<in> set p. 0 \<le> x" by auto
next
  assume "Qwen2DecoderLayer_forward R layout layer hs pos = Inr (out', pos')"
  then show "pos' = Pos1 (view_flat (masked_fill_padding pos))" by (rule decoder_layer_position_ids)
next
  fix i assume i: "0 < i \<and> i < length (fst (run_decoder R layout layers hs pos))"
  then show s: "fst (run_decoder R layout layers hs pos) ! i = Pos1 (view_flat (masked_fill_padding pos))"
    by (intro run_decoder_seen) simp_all
  show "- 1 \<notin> set (view_flat (fst (run_decoder R layout layers hs pos) ! i))"
    by (auto simp: s view_flat_masked_fill)
qed

end
